theory Spec2Isabelle
  imports Complex_Main
begin

section \<open>Python values used by the plugin\<close>

text \<open>
  A Python \<^verbatim>\<open>str\<close> is a sequence of Unicode code points, so a string is a list of
  code points (natural numbers).  \<open>ascii\<close> turns an ASCII literal into such a string.
\<close>

type_synonym pystr = "nat list"

definition ascii :: "string \<Rightarrow> pystr" where
  "ascii s = map of_char s"

section \<open>Pagination of super-chat rows (commands/query.py)\<close>

text \<open>
  \<^verbatim>\<open>render_sc_images\<close> builds one dict per super chat with the keys
  \<^verbatim>\<open>time, uname, uid, price, msg_lines, row_height\<close>.  The paginator only reads
  \<^verbatim>\<open>r.get("row_height")\<close>; the field is an \<open>int option\<close>, \<open>None\<close> standing for a
  missing key or a stored \<^verbatim>\<open>None\<close>.
\<close>

record sc_row =
  r_time :: pystr
  r_uname :: pystr
  r_uid :: pystr
  r_price :: pystr
  msg_lines :: "pystr list"
  row_height :: "int option"

text \<open>\<^verbatim>\<open>rh = int(r.get("row_height") or 0)\<close>\<close>

definition rh :: "sc_row \<Rightarrow> int" where
  "rh r = (case row_height r of None \<Rightarrow> 0 | Some v \<Rightarrow> (if v = 0 then 0 else v))"

type_synonym page = "nat \<times> sc_row list"

text \<open>The local variables of the loop in \<^verbatim>\<open>_paginate_rows_by_height\<close>.\<close>

record pg_state =
  pages :: "page list"
  cur :: "sc_row list"
  cur_h :: int
  start_idx :: nat
  global_idx :: nat

text \<open>
  \<^verbatim>\<open>max_data_h = max_canvas_h - header_h - table_header_h - table_padding_h\<close>, replaced by
  1 when it is not positive.
\<close>

definition max_data_h :: "int \<Rightarrow> int \<Rightarrow> int \<Rightarrow> int \<Rightarrow> int" where
  "max_data_h max_canvas_h header_h table_header_h table_padding_h =
     (let m = max_canvas_h - header_h - table_header_h - table_padding_h
      in if m \<le> 0 then 1 else m)"

text \<open>One iteration of \<^verbatim>\<open>for r in rows\<close>.\<close>

definition pg_step :: "int \<Rightarrow> pg_state \<Rightarrow> sc_row \<Rightarrow> pg_state" where
  "pg_step m st r =
     (let st1 = (if cur st \<noteq> [] \<and> cur_h st + rh r > m
                 then st\<lparr>pages := pages st @ [(start_idx st, cur st)],
                         cur := [], cur_h := 0, start_idx := global_idx st\<rparr>
                 else st)
      in st1\<lparr>cur := cur st1 @ [r], cur_h := cur_h st1 + rh r,
              global_idx := global_idx st1 + 1\<rparr>)"

fun pg_loop :: "int \<Rightarrow> pg_state \<Rightarrow> sc_row list \<Rightarrow> pg_state" where
  "pg_loop m st [] = st"
| "pg_loop m st (r # rows) = pg_loop m (pg_step m st r) rows"

definition pg_init :: pg_state where
  "pg_init = \<lparr>pages = [], cur = [], cur_h = 0, start_idx = 0, global_idx = 0\<rparr>"

text \<open>After the loop: \<^verbatim>\<open>if cur: pages.append((start_idx, cur))\<close>.\<close>

definition final_pages :: "pg_state \<Rightarrow> page list" where
  "final_pages st =
     (if cur st \<noteq> [] then pages st @ [(start_idx st, cur st)] else pages st)"

text \<open>The whole function; the last line is \<^verbatim>\<open>return pages or [(0, [])]\<close>.\<close>

definition paginate_rows_by_height ::
  "sc_row list \<Rightarrow> int \<Rightarrow> int \<Rightarrow> int \<Rightarrow> int \<Rightarrow> page list" where
  "paginate_rows_by_height rows max_canvas_h header_h table_header_h table_padding_h =
     (let ps = final_pages
                 (pg_loop (max_data_h max_canvas_h header_h table_header_h table_padding_h)
                    pg_init rows)
      in if ps \<noteq> [] then ps else [(0, [])])"

text \<open>The content height of a page: the sum of the heights of its rows.\<close>

definition page_height :: "page \<Rightarrow> int" where
  "page_height p = sum_list (map rh (snd p))"

text \<open>
  The row loop of \<^verbatim>\<open>render_sc_images\<close> paints the background of the row with
  page-local index \<open>idx\<close> on a page that starts at \<open>global_start_idx\<close>:
  \<^verbatim>\<open>bg = Color.LIGHTGRAY if ((global_start_idx + idx) % 2 == 0) else Color.WHITE\<close>.
\<close>

datatype color = BLACK | WHITE | GRAY | LIGHTGRAY | DEEPSKYBLUE

definition row_bg :: "nat \<Rightarrow> nat \<Rightarrow> color" where
  "row_bg global_start_idx idx =
     (if (global_start_idx + idx) mod 2 = 0 then LIGHTGRAY else WHITE)"

text \<open>\<^verbatim>\<open>for idx, r in enumerate(page_rows)\<close>: the rows of one page with their stripes.\<close>

definition page_row_bgs :: "page \<Rightarrow> (sc_row \<times> color) list" where
  "page_row_bgs p = map (\<lambda>(idx, r). (r, row_bg (fst p) idx)) (enumerate 0 (snd p))"

subsection \<open>Auxiliary notions for the pagination proofs\<close>

text \<open>All rows consumed so far, in order: the finished pages followed by the open one.\<close>

definition flat :: "pg_state \<Rightarrow> sc_row list" where
  "flat st = concat (map snd (pages st)) @ cur st"

text \<open>The pages are numbered consecutively from \<open>n\<close>.\<close>

fun starts_from :: "nat \<Rightarrow> page list \<Rightarrow> bool" where
  "starts_from n [] = True"
| "starts_from n (p # ps) = (fst p = n \<and> starts_from (n + length (snd p)) ps)"

definition idx_inv :: "pg_state \<Rightarrow> bool" where
  "idx_inv st = (starts_from 0 (pages st) \<and>
                 start_idx st = length (concat (map snd (pages st))) \<and>
                 global_idx st = length (flat st))"

text \<open>
  A row list respects the budget \<open>m\<close>: with two or more rows it fits, and a row
  higher than \<open>m\<close> is alone.
\<close>

definition page_ok :: "int \<Rightarrow> sc_row list \<Rightarrow> bool" where
  "page_ok m rs = ((2 \<le> length rs \<longrightarrow> sum_list (map rh rs) \<le> m) \<and>
                   (\<forall>r \<in> set rs. m < rh r \<longrightarrow> rs = [r]))"

definition budget_inv :: "int \<Rightarrow> pg_state \<Rightarrow> bool" where
  "budget_inv m st = (cur_h st = sum_list (map rh (cur st)) \<and>
                      (\<forall>r \<in> set (cur st). 0 \<le> rh r) \<and>
                      (\<forall>p \<in> set (pages st). page_ok m (snd p)) \<and>
                      page_ok m (cur st))"

text \<open>A row as \<^verbatim>\<open>render_sc_images\<close> builds it, with the given height (for examples).\<close>

definition example_row :: "int \<Rightarrow> sc_row" where
  "example_row h = \<lparr>r_time = [], r_uname = [], r_uid = [], r_price = [],
                     msg_lines = [], row_height = Some h\<rparr>"

section \<open>Text runs, width measurement and pixel truncation\<close>

subsection \<open>Run splitting (toolkit.py)\<close>

text \<open>
  \<^verbatim>\<open>_is_emoji_char\<close> tests the code point against fixed ranges and falls back to
  \<^verbatim>\<open>unicodedata.category(ch) == "So"\<close>.  The Unicode database is not part of the
  repository: \<open>category_So\<close> is the set of code points of category So, a parameter.
\<close>

definition is_emoji_char :: "(nat \<Rightarrow> bool) \<Rightarrow> nat \<Rightarrow> bool" where
  "is_emoji_char category_So c =
     (if c = 0xFE0F \<or> c = 0x200D then True
      else if 0x1F300 \<le> c \<and> c \<le> 0x1FAFF then True
      else if 0x2600 \<le> c \<and> c \<le> 0x27BF then True
      else if 0x1F1E6 \<le> c \<and> c \<le> 0x1F1FF then True
      else category_So c)"

text \<open>
  \<^verbatim>\<open>_split_runs_by_emoji\<close> is a generator; the model returns the list of the pairs it
  yields.  \<open>split_loop\<close> is the \<^verbatim>\<open>while i < len(s)\<close> loop with the buffer and its
  flag as arguments, followed by the final \<^verbatim>\<open>flush()\<close>.
\<close>

type_synonym run = "pystr \<times> bool"

fun split_loop :: "(nat \<Rightarrow> bool) \<Rightarrow> pystr \<Rightarrow> bool \<Rightarrow> pystr \<Rightarrow> run list" where
  "split_loop category_So buf buf_is_emoji [] =
     (if buf \<noteq> [] then [(buf, buf_is_emoji)] else [])"
| "split_loop category_So buf buf_is_emoji (ch # rest) =
     (let is_e = is_emoji_char category_So ch
      in if ch = 0xFE0F \<or> ch = 0x200D then
           (if buf \<noteq> [] then split_loop category_So (buf @ [ch]) buf_is_emoji rest
            else split_loop category_So [ch] True rest)
         else if buf = [] then split_loop category_So [ch] is_e rest
         else if is_e = buf_is_emoji then split_loop category_So (buf @ [ch]) buf_is_emoji rest
         else (buf, buf_is_emoji) # split_loop category_So [ch] is_e rest)"

definition split_runs_by_emoji :: "(nat \<Rightarrow> bool) \<Rightarrow> pystr \<Rightarrow> run list" where
  "split_runs_by_emoji category_So s =
     (if s = [] then [] else split_loop category_So [] False s)"

subsection \<open>Width measurement (toolkit.py) and truncation (commands/live_list.py)\<close>

text \<open>
  \<^verbatim>\<open>_text_length\<close> tries \<^verbatim>\<open>draw.textlength\<close>, \<^verbatim>\<open>font.getlength\<close> and
  \<^verbatim>\<open>draw.textbbox\<close> in this order and falls back to ten pixels per character.  The
  three Pillow calls are parameters: each gives the integer the code computes from the
  call, or \<open>None\<close> when the call raises.  \<^verbatim>\<open>_measure_with_fallback\<close> only uses the
  emoji font and the text font of the generator.
\<close>

datatype font = EmojiFont | TextFont

record pic_generator =
  draw_textlength :: "pystr \<Rightarrow> font \<Rightarrow> int option"
  font_getlength :: "font \<Rightarrow> pystr \<Rightarrow> int option"
  draw_textbbox_width :: "pystr \<Rightarrow> font \<Rightarrow> int option"

definition text_length :: "pic_generator \<Rightarrow> pystr \<Rightarrow> font \<Rightarrow> int" where
  "text_length pic text font =
     (case draw_textlength pic text font of Some w \<Rightarrow> w
      | None \<Rightarrow>
        (case font_getlength pic font text of Some w \<Rightarrow> w
         | None \<Rightarrow>
           (case draw_textbbox_width pic text font of Some w \<Rightarrow> w
            | None \<Rightarrow> int (length text) * 10)))"

definition measure_with_fallback :: "(nat \<Rightarrow> bool) \<Rightarrow> pic_generator \<Rightarrow> pystr \<Rightarrow> int" where
  "measure_with_fallback category_So pic text =
     foldl (\<lambda>total (run_text, run_is_emoji).
              total + text_length pic run_text (if run_is_emoji then EmojiFont else TextFont))
       0 (split_runs_by_emoji category_So text)"

text \<open>
  \<^verbatim>\<open>_limit_text_by_px\<close>: the loop appends characters to \<open>acc\<close> and stops, dropping the
  last one, as soon as the accumulated width plus the width of the suffix exceeds
  \<open>max_px\<close>.  A \<^verbatim>\<open>PicGenerator\<close> always has \<^verbatim>\<open>_measure_with_fallback\<close>, so the
  branch for a generator without it is not modelled.
\<close>

fun limit_loop :: "(pystr \<Rightarrow> int) \<Rightarrow> int \<Rightarrow> int \<Rightarrow> pystr \<Rightarrow> pystr \<Rightarrow> pystr" where
  "limit_loop measure_f suf_w max_px acc [] = acc"
| "limit_loop measure_f suf_w max_px acc (ch # rest) =
     (if measure_f (acc @ [ch]) + suf_w > max_px then acc
      else limit_loop measure_f suf_w max_px (acc @ [ch]) rest)"

definition limit_text_by_px ::
  "(nat \<Rightarrow> bool) \<Rightarrow> pic_generator \<Rightarrow> pystr \<Rightarrow> int \<Rightarrow> pystr" where
  "limit_text_by_px category_So pic text max_px =
     (let measure_f = measure_with_fallback category_So pic
      in if text = [] then []
         else if measure_f text \<le> max_px then text
         else let suffix = ascii ''...''; suf_w = measure_f suffix
              in limit_loop measure_f suf_w max_px [] text @ suffix)"

text \<open>A drawing backend none of whose measuring calls works.\<close>

definition no_backend :: pic_generator where
  "no_backend = \<lparr>draw_textlength = (\<lambda>_ _. None), font_getlength = (\<lambda>_ _. None),
                  draw_textbbox_width = (\<lambda>_ _. None)\<rparr>"

text \<open>
  A drawing backend whose glyphs all advance 10.6 px: \<^verbatim>\<open>draw.textlength\<close> returns
  the float \<open>10.6 * len(text)\<close>, and \<^verbatim>\<open>int(...)\<close> in \<^verbatim>\<open>_text_length\<close> truncates it.
\<close>

definition frac_backend :: pic_generator where
  "frac_backend = \<lparr>draw_textlength = (\<lambda>t _. Some ((106 * int (length t)) div 10)),
                    font_getlength = (\<lambda>_ _. None),
                    draw_textbbox_width = (\<lambda>_ _. None)\<rparr>"

section \<open>Formatters and argument parsing\<close>

text \<open>
  \<^verbatim>\<open>str.strip()\<close> removes the code points for which \<^verbatim>\<open>str.isspace\<close> holds
  from both ends.
\<close>

definition is_space :: "nat \<Rightarrow> bool" where
  "is_space c = ((9 \<le> c \<and> c \<le> 13) \<or> (28 \<le> c \<and> c \<le> 32) \<or> c = 0x85 \<or> c = 0xA0 \<or>
     c = 0x1680 \<or> (0x2000 \<le> c \<and> c \<le> 0x200A) \<or> c = 0x2028 \<or> c = 0x2029 \<or>
     c = 0x202F \<or> c = 0x205F \<or> c = 0x3000)"

definition strip :: "pystr \<Rightarrow> pystr" where
  "strip s = rev (dropWhile is_space (rev (dropWhile is_space s)))"

text \<open>
  Decimal digits.  The ASCII digits are fixed; the decimal digits outside ASCII come from
  the Unicode database of the Python runtime, which is not part of the repository:
  \<open>nd\<close> gives the digit value of such a code point (\<^verbatim>\<open>unicodedata.decimal\<close>) and is a
  parameter.  Both \<^verbatim>\<open>\d\<close> of \<^verbatim>\<open>re\<close> and \<^verbatim>\<open>int()\<close> use this notion; white space is
  never a digit.
\<close>

definition digit_val :: "(nat \<Rightarrow> nat option) \<Rightarrow> nat \<Rightarrow> nat option" where
  "digit_val nd c =
     (if c < 128 then (if 48 \<le> c \<and> c \<le> 57 then Some (c - 48) else None)
      else if is_space c then None else nd c)"

text \<open>
  \<^verbatim>\<open>int(s)\<close> on a string: optional white space around, an optional sign, and decimal
  digits with single underscores between them; \<open>None\<close> stands for \<^verbatim>\<open>ValueError\<close>.
  \<^verbatim>\<open>int()\<close> leaves the ASCII separators 28 to 31 alone, unlike \<^verbatim>\<open>strip\<close>.  The limit
  on the number of digits of recent Python versions is not modelled.
\<close>

definition int_space :: "nat \<Rightarrow> bool" where
  "int_space c = ((9 \<le> c \<and> c \<le> 13) \<or> c = 32 \<or> (127 \<le> c \<and> is_space c))"

fun after_digit :: "(nat \<Rightarrow> nat option) \<Rightarrow> nat \<Rightarrow> pystr \<Rightarrow> nat option" where
  "after_digit nd acc [] = Some acc"
| "after_digit nd acc (c # cs) =
     (if c = 95 then
        (case cs of [] \<Rightarrow> None
         | d # ds \<Rightarrow> (case digit_val nd d of None \<Rightarrow> None
                      | Some v \<Rightarrow> after_digit nd (10 * acc + v) ds))
      else (case digit_val nd c of None \<Rightarrow> None
            | Some v \<Rightarrow> after_digit nd (10 * acc + v) cs))"

definition digits_val :: "(nat \<Rightarrow> nat option) \<Rightarrow> pystr \<Rightarrow> nat option" where
  "digits_val nd s = (case s of [] \<Rightarrow> None
     | c # cs \<Rightarrow> (case digit_val nd c of None \<Rightarrow> None | Some v \<Rightarrow> after_digit nd v cs))"

definition py_int :: "(nat \<Rightarrow> nat option) \<Rightarrow> pystr \<Rightarrow> int option" where
  "py_int nd s =
     (let t = rev (dropWhile int_space (rev (dropWhile int_space s)))
      in case t of [] \<Rightarrow> None
         | c # cs \<Rightarrow>
             if c = 45 then map_option (\<lambda>n. - int n) (digits_val nd cs)
             else if c = 43 then map_option int (digits_val nd cs)
             else map_option int (digits_val nd t))"

text \<open>
  \<^verbatim>\<open>s.split(":")\<close> with the separator given as a code point; the result is never empty.
\<close>

fun split_on :: "nat \<Rightarrow> pystr \<Rightarrow> pystr list" where
  "split_on sep [] = [[]]"
| "split_on sep (c # cs) =
     (if c = sep then [] # split_on sep cs
      else (case split_on sep cs of [] \<Rightarrow> [[c]] | p # ps \<Rightarrow> (c # p) # ps))"

text \<open>
  \<^verbatim>\<open>str(n)\<close> for an integer: decimal digits, most significant first, after a minus
  sign for a negative number.
\<close>

fun digits10 :: "nat \<Rightarrow> pystr" where
  "digits10 n = (if n < 10 then [48 + n] else digits10 (n div 10) @ [48 + n mod 10])"

definition str_int :: "int \<Rightarrow> pystr" where
  "str_int n = (if n < 0 then 45 # digits10 (nat (- n)) else digits10 (nat n))"

text \<open>
  Floats, for the hour totals of the duration formatters.  A finite double is kept as
  the rational it denotes.  Neither a negative zero nor a NaN can arise from the sums
  of \<^verbatim>\<open>h + m / 60 + s / 3600\<close> with integers, but \<open>float_add\<close> is total.
  \<open>round_double\<close> rounds a rational to the nearest double, ties to even, with 53
  bits of precision, gradual underflow and overflow to infinity.
\<close>

datatype pyfloat = Fin rat | PInf | NInf | NaN

text \<open>
  \<open>halvings x\<close> is \<open>\<lfloor>log\<^sub>2 x\<rfloor>\<close> for \<open>1 \<le> x\<close>, and \<open>doublings x\<close> is
  \<open>- \<lfloor>log\<^sub>2 x\<rfloor>\<close> for \<open>0 < x < 1\<close>.
\<close>

function halvings :: "rat \<Rightarrow> nat" where
  "halvings x = (if x < 2 then 0 else Suc (halvings (x / 2)))"
  by pat_completeness auto
termination
proof (relation "measure (\<lambda>x. nat \<lfloor>x\<rfloor>)")
  show "wf (measure (\<lambda>x::rat. nat \<lfloor>x\<rfloor>))" by simp
next
  fix x :: rat
  assume "\<not> x < 2"
  then have "\<lfloor>x / 2\<rfloor> < \<lfloor>x\<rfloor>" and "0 < \<lfloor>x\<rfloor>"
    by linarith+
  then show "(x / 2, x) \<in> measure (\<lambda>x. nat \<lfloor>x\<rfloor>)" by simp
qed

function doublings :: "rat \<Rightarrow> nat" where
  "doublings x = (if x \<le> 0 \<or> 1 \<le> x then 0 else Suc (doublings (2 * x)))"
  by pat_completeness auto
termination
proof (relation "measure (\<lambda>x. nat \<lceil>1 / x\<rceil>)")
  show "wf (measure (\<lambda>x::rat. nat \<lceil>1 / x\<rceil>))" by simp
next
  fix x :: rat
  assume "\<not> (x \<le> 0 \<or> 1 \<le> x)"
  then have x: "0 < x" "x < 1" by simp_all
  define y where "y = 1 / x"
  have y: "1 < y" using x by (simp add: y_def)
  have c2: "2 \<le> \<lceil>y\<rceil>" using y by linarith
  have c2r: "(2::rat) \<le> of_int \<lceil>y\<rceil>"
    using c2 of_int_le_iff[of 2 "\<lceil>y\<rceil>", where ?'a = rat] by simp
  have "y \<le> of_int \<lceil>y\<rceil>" by linarith
  with c2r have "y / 2 \<le> of_int \<lceil>y\<rceil> - 1" by linarith
  then have "y / 2 \<le> of_int (\<lceil>y\<rceil> - 1)" by simp
  then have "\<lceil>y / 2\<rceil> \<le> \<lceil>y\<rceil> - 1" by (simp only: ceiling_le_iff)
  then have lt: "nat \<lceil>y / 2\<rceil> < nat \<lceil>y\<rceil>" using c2 by linarith
  have e: "1 / (2 * x) = y / 2" by (simp add: y_def)
  show "(2 * x, x) \<in> measure (\<lambda>x. nat \<lceil>1 / x\<rceil>)"
    unfolding in_measure e using lt by (simp only: y_def)
qed

definition pow2 :: "int \<Rightarrow> rat" where
  "pow2 e = (if 0 \<le> e then 2 ^ nat e else 1 / 2 ^ nat (- e))"

definition ilog2 :: "rat \<Rightarrow> int" where
  "ilog2 x = (if 1 \<le> x then int (halvings x) else - int (doublings x))"

definition round_half_even :: "rat \<Rightarrow> int" where
  "round_half_even x =
     (let f = \<lfloor>x\<rfloor>; r = x - of_int f
      in if r < 1 / 2 then f else if 1 / 2 < r then f + 1
         else if even f then f else f + 1)"

definition round_double :: "rat \<Rightarrow> pyfloat" where
  "round_double x =
     (if x = 0 then Fin 0
      else let a = \<bar>x\<bar>;
               q = max (ilog2 a - 52) (- 1074);
               y = of_int (round_half_even (a / pow2 q)) * pow2 q
           in if pow2 1024 \<le> y then (if x < 0 then NInf else PInf)
              else Fin (if x < 0 then - y else y))"

text \<open>
  \<^verbatim>\<open>float(n)\<close> for an integer and the true division \<^verbatim>\<open>a / b\<close> of two integers are
  correctly rounded and raise \<^verbatim>\<open>OverflowError\<close> (here \<open>None\<close>) instead of returning
  an infinity; the sum of two floats does not raise.
\<close>

definition int_to_float :: "int \<Rightarrow> pyfloat option" where
  "int_to_float n = (case round_double (of_int n) of Fin x \<Rightarrow> Some (Fin x) | _ \<Rightarrow> None)"

definition int_true_div :: "int \<Rightarrow> int \<Rightarrow> pyfloat option" where
  "int_true_div a b =
     (if b = 0 then None
      else case round_double (of_int a / of_int b) of Fin x \<Rightarrow> Some (Fin x) | _ \<Rightarrow> None)"

fun float_add :: "pyfloat \<Rightarrow> pyfloat \<Rightarrow> pyfloat" where
  "float_add (Fin x) (Fin y) = round_double (x + y)"
| "float_add NaN _ = NaN"
| "float_add _ NaN = NaN"
| "float_add PInf NInf = NaN"
| "float_add NInf PInf = NaN"
| "float_add PInf _ = PInf"
| "float_add _ PInf = PInf"
| "float_add NInf _ = NInf"
| "float_add _ NInf = NInf"

text \<open>
  \<^verbatim>\<open>f"{x:.1f}"\<close> and \<^verbatim>\<open>f"{x:.2f}"\<close>: the exact value rounded to \<open>d\<close> decimals,
  ties to even.
\<close>

definition zero_pad :: "nat \<Rightarrow> pystr \<Rightarrow> pystr" where
  "zero_pad d s = replicate (d - length s) 48 @ s"

definition fmt_fixed :: "nat \<Rightarrow> pyfloat \<Rightarrow> pystr" where
  "fmt_fixed d v =
     (case v of
        PInf \<Rightarrow> ascii ''inf''
      | NInf \<Rightarrow> ascii ''-inf''
      | NaN \<Rightarrow> ascii ''nan''
      | Fin x \<Rightarrow>
          (let n = nat (round_half_even (\<bar>x\<bar> * 10 ^ d))
           in (if x < 0 then [45] else []) @ digits10 (n div 10 ^ d) @
              (if d = 0 then [] else 46 # zero_pad d (digits10 (n mod 10 ^ d)))))"

text \<open>
  The duration formatters: \<^verbatim>\<open>format_duration\<close> of commands/douchong.py and
  \<^verbatim>\<open>_format_duration_hours\<close> of commands/query.py.  Both split at the colons, need
  exactly three parts, convert each with \<^verbatim>\<open>int\<close> and format
  \<^verbatim>\<open>h + m / 60 + s / 3600\<close>, the first with one decimal, the second with two; the
  suffix is the two code points of the Chinese word for hours.  \<open>format_hms\<close> is the
  common \<^verbatim>\<open>try\<close> block, \<open>None\<close> when it is left by an exception or when the number of
  parts is not three.  On that path the first returns its argument and the second
  \<^verbatim>\<open>live_duration or "00:00:00"\<close>.
\<close>

definition hours_suffix :: pystr where
  "hours_suffix = [0x5C0F, 0x65F6]"

definition total_hours :: "int \<Rightarrow> int \<Rightarrow> int \<Rightarrow> pyfloat option" where
  "total_hours h m s =
     (case int_true_div m 60 of None \<Rightarrow> None
      | Some a \<Rightarrow>
        (case int_to_float h of None \<Rightarrow> None
         | Some hf \<Rightarrow>
           (case int_true_div s 3600 of None \<Rightarrow> None
            | Some b \<Rightarrow> Some (float_add (float_add hf a) b))))"

definition format_hms :: "(nat \<Rightarrow> nat option) \<Rightarrow> nat \<Rightarrow> pystr \<Rightarrow> pystr option" where
  "format_hms nd d hms =
     (case split_on 58 hms of
        [p0, p1, p2] \<Rightarrow>
          (case py_int nd p0 of None \<Rightarrow> None
           | Some h \<Rightarrow>
             (case py_int nd p1 of None \<Rightarrow> None
              | Some m \<Rightarrow>
                (case py_int nd p2 of None \<Rightarrow> None
                 | Some s \<Rightarrow>
                   (case total_hours h m s of None \<Rightarrow> None
                    | Some t \<Rightarrow> Some (fmt_fixed d t @ hours_suffix)))))
      | _ \<Rightarrow> None)"

definition format_duration :: "(nat \<Rightarrow> nat option) \<Rightarrow> pystr \<Rightarrow> pystr" where
  "format_duration nd hms = (case format_hms nd 1 hms of Some r \<Rightarrow> r | None \<Rightarrow> hms)"

definition format_duration_hours :: "(nat \<Rightarrow> nat option) \<Rightarrow> pystr \<Rightarrow> pystr" where
  "format_duration_hours nd live_duration =
     (case format_hms nd 2 live_duration of Some r \<Rightarrow> r
      | None \<Rightarrow> if live_duration \<noteq> [] then live_duration else ascii ''00:00:00'')"

text \<open>
  \<^verbatim>\<open>format_count\<close> of commands/douchong.py, for its declared argument type
  \<^verbatim>\<open>Optional[int]\<close>.
\<close>

definition format_count :: "int option \<Rightarrow> pystr" where
  "format_count v = (case v of None \<Rightarrow> ascii ''-'' | Some n \<Rightarrow> str_int n)"

text \<open>
  \<^verbatim>\<open>normalize_month_arg\<close>.  \<open>month_re_1\<close> and \<open>month_re_2\<close> are the full matches of
  \<^verbatim>\<open>(\d{4})(\d{2})\<close> and \<^verbatim>\<open>(\d{4})-(\d{2})\<close>, giving the two groups; the first
  pattern is tried first.  The copy in commands/douchong.py and the copy in
  commands/query.py differ only in the layout of the \<^verbatim>\<open>try\<close> block.
\<close>

definition is_decimal :: "(nat \<Rightarrow> nat option) \<Rightarrow> nat \<Rightarrow> bool" where
  "is_decimal nd c = (digit_val nd c \<noteq> None)"

definition month_re_1 :: "(nat \<Rightarrow> nat option) \<Rightarrow> pystr \<Rightarrow> (pystr \<times> pystr) option" where
  "month_re_1 nd text =
     (if length text = 6 \<and> list_all (is_decimal nd) text
      then Some (take 4 text, drop 4 text) else None)"

definition month_re_2 :: "(nat \<Rightarrow> nat option) \<Rightarrow> pystr \<Rightarrow> (pystr \<times> pystr) option" where
  "month_re_2 nd text =
     (if length text = 7 \<and> list_all (is_decimal nd) (take 4 text) \<and> text ! 4 = 45 \<and>
         list_all (is_decimal nd) (drop 5 text)
      then Some (take 4 text, drop 5 text) else None)"

definition month_groups :: "(nat \<Rightarrow> nat option) \<Rightarrow> pystr \<Rightarrow> (pystr \<times> pystr) option" where
  "month_groups nd text =
     (case month_re_1 nd text of Some g \<Rightarrow> Some g | None \<Rightarrow> month_re_2 nd text)"

definition normalize_month_arg :: "(nat \<Rightarrow> nat option) \<Rightarrow> pystr \<Rightarrow> pystr option" where
  "normalize_month_arg nd raw =
     (if raw = [] then None
      else case month_groups nd (strip raw) of None \<Rightarrow> None
           | Some (yyyy, mm) \<Rightarrow>
               (case py_int nd mm of None \<Rightarrow> None
                | Some mm_i \<Rightarrow> if 1 \<le> mm_i \<and> mm_i \<le> 12 then Some (yyyy @ mm) else None))"

definition normalize_month_arg_query :: "(nat \<Rightarrow> nat option) \<Rightarrow> pystr \<Rightarrow> pystr option" where
  "normalize_month_arg_query nd raw =
     (if raw = [] then None
      else case month_groups nd (strip raw) of None \<Rightarrow> None
           | Some (yyyy, mm) \<Rightarrow>
               (case py_int nd mm of
                  Some mm_i \<Rightarrow> if 1 \<le> mm_i \<and> mm_i \<le> 12 then Some (yyyy @ mm) else None
                | None \<Rightarrow> None))"

text \<open>
  The words of the specification, for comparison: the stripped text is six digits, or
  four digits, a hyphen and two digits; the month field is its last two characters,
  read as a decimal number; the input splits into exactly three colon-separated
  integer fields.
\<close>

definition six_digits :: "(nat \<Rightarrow> nat option) \<Rightarrow> pystr \<Rightarrow> bool" where
  "six_digits nd t = (length t = 6 \<and> list_all (is_decimal nd) t)"

definition year_dash_month :: "(nat \<Rightarrow> nat option) \<Rightarrow> pystr \<Rightarrow> bool" where
  "year_dash_month nd t =
     (length t = 7 \<and> list_all (is_decimal nd) (take 4 t) \<and> t ! 4 = 45 \<and>
      list_all (is_decimal nd) (drop 5 t))"

definition month_field :: "pystr \<Rightarrow> pystr" where
  "month_field t = drop (length t - 2) t"

definition two_digit_value :: "(nat \<Rightarrow> nat option) \<Rightarrow> pystr \<Rightarrow> int" where
  "two_digit_value nd mm =
     (case (digit_val nd (mm ! 0), digit_val nd (mm ! 1)) of
        (Some a, Some b) \<Rightarrow> int (10 * a + b)
      | _ \<Rightarrow> 0)"

definition three_int_fields :: "(nat \<Rightarrow> nat option) \<Rightarrow> pystr \<Rightarrow> bool" where
  "three_int_fields nd hms =
     (case split_on 58 hms of
        [a, b, c] \<Rightarrow> py_int nd a \<noteq> None \<and> py_int nd b \<noteq> None \<and> py_int nd c \<noteq> None
      | _ \<Rightarrow> False)"

section \<open>Revenue totals (commands/douchong.py, commands/query.py)\<close>

















section \<open>Properties of the pagination\<close>

subsection \<open>Empty input\<close>

text \<open>
  C9: for the empty row list \<^verbatim>\<open>_paginate_rows_by_height\<close> returns exactly one page,
  with start index 0 and no rows, whatever the height parameters are.
\<close>

theorem paginate_empty:
  "paginate_rows_by_height [] max_canvas_h header_h table_header_h table_padding_h = [(0, [])]"
  by (simp add: paginate_rows_by_height_def final_pages_def pg_init_def)

subsection \<open>The pages partition the input\<close>


lemma flat_pg_step: "flat (pg_step m st r) = flat st @ [r]"
  by (simp add: flat_def pg_step_def Let_def)

lemma flat_pg_loop: "flat (pg_loop m st rows) = flat st @ rows"
  by (induction rows arbitrary: st) (simp_all add: flat_pg_step)

lemma concat_final_pages: "concat (map snd (final_pages st)) = flat st"
  by (simp add: final_pages_def flat_def)

lemma paginate_concat_rows:
  "concat (map snd (paginate_rows_by_height rows a b c d)) = rows"
proof -
  let ?st = "pg_loop (max_data_h a b c d) pg_init rows"
  have f: "flat ?st = rows"
    by (simp add: flat_pg_loop) (simp add: flat_def pg_init_def)
  show ?thesis
  proof (cases "final_pages ?st = []")
    case True
    with f concat_final_pages[of ?st] show ?thesis
      by (simp add: paginate_rows_by_height_def)
  next
    case False
    with f concat_final_pages[of ?st] show ?thesis
      by (simp add: paginate_rows_by_height_def)
  qed
qed

lemma sum_page_heights:
  "sum_list (map page_height ps) = sum_list (map rh (concat (map snd ps)))"
  by (induction ps) (simp_all add: page_height_def)

text \<open>
  C2: for every row list and all height parameters, the row lists of the returned pages,
  concatenated in order, are the input list (nothing split, dropped, duplicated or
  reordered), and hence the page heights add up to the sum of the input row heights.
\<close>

theorem paginate_partition:
  "concat (map snd (paginate_rows_by_height rows a b c d)) = rows \<and>
   sum_list (map page_height (paginate_rows_by_height rows a b c d)) = sum_list (map rh rows)"
  by (simp add: sum_page_heights paginate_concat_rows)

subsection \<open>Start indices and stripes\<close>


lemma starts_from_snoc:
  "starts_from n (ps @ [p]) =
     (starts_from n ps \<and> fst p = n + length (concat (map snd ps)))"
  by (induction ps arbitrary: n) (auto simp: add.assoc)

lemma idx_inv_step: "idx_inv st \<Longrightarrow> idx_inv (pg_step m st r)"
  by (simp add: idx_inv_def pg_step_def Let_def flat_def starts_from_snoc)

lemma idx_inv_loop: "idx_inv st \<Longrightarrow> idx_inv (pg_loop m st rows)"
  by (induction rows arbitrary: st) (simp_all add: idx_inv_step)

lemma idx_inv_init: "idx_inv pg_init"
  by (simp add: idx_inv_def pg_init_def flat_def)

lemma starts_from_final: "idx_inv st \<Longrightarrow> starts_from 0 (final_pages st)"
  by (simp add: idx_inv_def final_pages_def starts_from_snoc)

lemma starts_from_paginate: "starts_from 0 (paginate_rows_by_height rows a b c d)"
  using starts_from_final[OF idx_inv_loop[OF idx_inv_init], of "max_data_h a b c d" rows]
  by (simp add: paginate_rows_by_height_def Let_def)

lemma starts_from_nth:
  "starts_from n ps \<Longrightarrow> k < length ps \<Longrightarrow>
     fst (ps ! k) = n + length (concat (map snd (take k ps)))"
proof (induction ps arbitrary: n k)
  case Nil
  then show ?case by simp
next
  case (Cons p ps)
  show ?case
  proof (cases k)
    case 0
    with Cons.prems show ?thesis by simp
  next
    case (Suc j)
    with Cons.prems have "j < length ps" and "starts_from (n + length (snd p)) ps"
      by simp_all
    from Cons.IH[OF this(2) this(1)] Suc Cons.prems show ?thesis by simp
  qed
qed

lemma enumerate_shift:
  "map (\<lambda>(idx, r). (r, f (n + idx))) (enumerate k rs) =
   map (\<lambda>(i, r). (r, f i)) (enumerate (n + k) rs)"
  by (induction rs arbitrary: k) (simp_all del: add_Suc_right add: add_Suc_right[symmetric])

lemma page_row_bgs_global:
  "starts_from n ps \<Longrightarrow>
     concat (map page_row_bgs ps) =
     map (\<lambda>(i, r). (r, if i mod 2 = 0 then LIGHTGRAY else WHITE))
       (enumerate n (concat (map snd ps)))"
proof (induction ps arbitrary: n)
  case Nil
  then show ?case by simp
next
  case (Cons p ps)
  have "page_row_bgs p =
        map (\<lambda>(i, r). (r, if i mod 2 = 0 then LIGHTGRAY else WHITE)) (enumerate n (snd p))"
    using Cons.prems
      enumerate_shift[of "\<lambda>i. if i mod 2 = 0 then LIGHTGRAY else WHITE" n 0 "snd p"]
    by (simp add: page_row_bgs_def row_bg_def)
  with Cons show ?case
    by (simp add: enumerate_append_eq)
qed

text \<open>
  C5: the start index of every page is the number of rows on the pages before it, and
  the stripes that \<^verbatim>\<open>render_sc_images\<close> computes from start index plus page-local
  index are, over all pages in order, the stripes given by the parity of each row's
  index in the whole input.
\<close>

theorem paginate_start_index:
  "(\<forall>k < length (paginate_rows_by_height rows a b c d).
      fst (paginate_rows_by_height rows a b c d ! k) =
      length (concat (map snd (take k (paginate_rows_by_height rows a b c d))))) \<and>
   concat (map page_row_bgs (paginate_rows_by_height rows a b c d)) =
     map (\<lambda>(i, r). (r, if i mod 2 = 0 then LIGHTGRAY else WHITE)) (enumerate 0 rows)"
  using starts_from_nth[OF starts_from_paginate, of _ rows a b c d]
    page_row_bgs_global[OF starts_from_paginate, of rows a b c d]
  by (simp add: paginate_concat_rows)

theorem paginate_start_index_witness:
  "paginate_rows_by_height
     [example_row 60, example_row 88, example_row 20000, example_row 60] 16000 160 60 40 =
     [(0, [example_row 60, example_row 88]), (2, [example_row 20000]), (3, [example_row 60])] \<and>
   fst (paginate_rows_by_height
     [example_row 60, example_row 88, example_row 20000, example_row 60] 16000 160 60 40 ! 2) =
     length (concat (map snd (take 2 (paginate_rows_by_height
       [example_row 60, example_row 88, example_row 20000, example_row 60] 16000 160 60 40))))"
  using paginate_start_index
    [of "[example_row 60, example_row 88, example_row 20000, example_row 60]" 16000 160 60 40]
  by (simp add: paginate_rows_by_height_def final_pages_def pg_init_def pg_step_def
      max_data_h_def rh_def example_row_def)

subsection \<open>The height budget\<close>


lemma page_ok_single: "page_ok m [r]"
  by (simp add: page_ok_def)

lemma page_ok_Nil: "page_ok m []"
  by (simp add: page_ok_def)

lemma sum_rh_nonneg: "\<forall>r \<in> set rs. 0 \<le> rh r \<Longrightarrow> 0 \<le> sum_list (map rh rs)"
  by (induction rs) simp_all

lemma member_le_sum_list:
  "\<forall>r \<in> set rs. 0 \<le> rh r \<Longrightarrow> x \<in> set rs \<Longrightarrow> rh x \<le> sum_list (map rh rs)"
proof (induction rs)
  case Nil
  then show ?case by simp
next
  case (Cons a rs)
  have nn: "0 \<le> sum_list (map rh rs)"
    using Cons.prems(1) by (simp add: sum_rh_nonneg)
  show ?case
  proof (cases "x = a")
    case True
    with nn show ?thesis by simp
  next
    case False
    with Cons have "rh x \<le> sum_list (map rh rs)" by simp
    moreover have "0 \<le> rh a" using Cons.prems(1) by simp
    ultimately show ?thesis by simp
  qed
qed

lemma page_ok_extend:
  assumes nn: "\<forall>x \<in> set (rs @ [r]). 0 \<le> rh x"
    and fits: "sum_list (map rh rs) + rh r \<le> m"
  shows "page_ok m (rs @ [r])"
proof -
  have "rh x \<le> m" if "x \<in> set (rs @ [r])" for x
    using member_le_sum_list[OF nn that] fits by simp
  then show ?thesis
    using fits by (fastforce simp: page_ok_def)
qed

lemma budget_inv_step:
  assumes "budget_inv m st" and "0 \<le> rh r"
  shows "budget_inv m (pg_step m st r)"
proof (cases "cur st \<noteq> [] \<and> cur_h st + rh r > m")
  case True
  with assms show ?thesis
    by (simp add: budget_inv_def pg_step_def page_ok_single)
next
  case False
  show ?thesis
  proof (cases "cur st = []")
    case True
    with assms show ?thesis
      by (simp add: budget_inv_def pg_step_def page_ok_single)
  next
    case nonempty: False
    with False have fits: "sum_list (map rh (cur st)) + rh r \<le> m"
      using assms(1) by (simp add: budget_inv_def)
    have nn: "\<forall>x \<in> set (cur st @ [r]). 0 \<le> rh x"
      using assms by (simp add: budget_inv_def)
    have nofl: "\<not> m < sum_list (map rh (cur st)) + rh r"
      using fits by simp
    from page_ok_extend[OF nn fits] nonempty nofl assms show ?thesis
      by (simp add: budget_inv_def pg_step_def)
  qed
qed

lemma budget_inv_loop:
  "budget_inv m st \<Longrightarrow> \<forall>r \<in> set rows. 0 \<le> rh r \<Longrightarrow> budget_inv m (pg_loop m st rows)"
  by (induction rows arbitrary: st) (simp_all add: budget_inv_step)

lemma budget_inv_init: "budget_inv m pg_init"
  by (simp add: budget_inv_def pg_init_def page_ok_Nil)

lemma budget_inv_final:
  "budget_inv m st \<Longrightarrow> p \<in> set (final_pages st) \<Longrightarrow> page_ok m (snd p)"
  by (auto simp: budget_inv_def final_pages_def split: if_splits)

lemma paginate_pages_ok:
  assumes "\<forall>r \<in> set rows. 0 \<le> rh r"
    and "p \<in> set (paginate_rows_by_height rows a b c d)"
  shows "page_ok (max_data_h a b c d) (snd p)"
proof -
  let ?st = "pg_loop (max_data_h a b c d) pg_init rows"
  have inv: "budget_inv (max_data_h a b c d) ?st"
    using budget_inv_loop[OF budget_inv_init assms(1)] .
  show ?thesis
  proof (cases "final_pages ?st = []")
    case True
    with assms(2) show ?thesis by (simp add: paginate_rows_by_height_def page_ok_Nil)
  next
    case False
    with assms(2) budget_inv_final[OF inv] show ?thesis by (simp add: paginate_rows_by_height_def)
  qed
qed

lemma max_data_h_pos: "1 \<le> max_data_h a b c d"
  by (simp add: max_data_h_def Let_def)

text \<open>
  C3: when every row height is non-negative, the budget is at least 1 px, every returned
  page with two or more rows has content height at most the budget, and a row higher
  than the budget is the only row of its page.  The paginator is a structural recursion
  over the finite row list, so it returns a page list for every input and every budget.
\<close>

theorem paginate_budget:
  assumes "\<forall>r \<in> set rows. 0 \<le> rh r"
  shows "1 \<le> max_data_h a b c d \<and>
    (\<forall>p \<in> set (paginate_rows_by_height rows a b c d).
       (2 \<le> length (snd p) \<longrightarrow> page_height p \<le> max_data_h a b c d) \<and>
       (\<forall>r \<in> set (snd p). max_data_h a b c d < rh r \<longrightarrow> snd p = [r]))"
  using paginate_pages_ok[OF assms, of _ a b c d] max_data_h_pos[of a b c d]
  by (simp add: page_ok_def page_height_def)

theorem paginate_budget_witness:
  "0 \<le> rh (example_row 60) \<and> 0 \<le> rh (example_row 88) \<and> 0 \<le> rh (example_row 20000) \<and>
   paginate_rows_by_height
     [example_row 60, example_row 88, example_row 20000, example_row 60] 16000 160 60 40 =
     [(0, [example_row 60, example_row 88]), (2, [example_row 20000]), (3, [example_row 60])] \<and>
   max_data_h 16000 160 60 40 = 15740 \<and>
   page_height (0, [example_row 60, example_row 88]) \<le> max_data_h 16000 160 60 40 \<and>
   max_data_h 16000 160 60 40 < rh (example_row 20000)"
  using paginate_budget
    [of "[example_row 60, example_row 88, example_row 20000, example_row 60]" 16000 160 60 40]
  by (simp add: paginate_rows_by_height_def final_pages_def pg_init_def pg_step_def
      max_data_h_def rh_def example_row_def page_height_def)

section \<open>Properties of run splitting and truncation\<close>

lemma split_loop_concat:
  "concat (map fst (split_loop So buf be rest)) = buf @ rest"
  by (induction rest arbitrary: buf be) (simp_all add: Let_def)

lemma split_loop_nonempty:
  "[] \<notin> set (map fst (split_loop So buf be rest))"
  by (induction rest arbitrary: buf be) (auto simp: Let_def)

text \<open>
  C10: the run texts yielded by \<^verbatim>\<open>_split_runs_by_emoji\<close>, concatenated in order, are the
  input string, and no yielded run text is empty.
\<close>

theorem split_runs_concat:
  "concat (map fst (split_runs_by_emoji category_So s)) = s \<and>
   [] \<notin> set (map fst (split_runs_by_emoji category_So s))"
  using split_loop_nonempty[of category_So "[]" False s]
  by (simp add: split_runs_by_emoji_def split_loop_concat)

lemma foldl_run_widths:
  fixes f :: "pystr \<Rightarrow> bool \<Rightarrow> int"
  shows "foldl (\<lambda>total (run_text, run_is_emoji). total + f run_text run_is_emoji) a rs =
   a + sum_list (map (\<lambda>(t, e). f t e) rs)"
  by (induction rs arbitrary: a) (simp_all add: split_def)

lemma sum_run_lengths:
  "sum_list (map (\<lambda>(t, e). int (length t) * 10) rs) = int (length (concat (map fst rs))) * 10"
  by (induction rs) (simp_all add: split_def algebra_simps)

lemma measure_no_backend:
  "measure_with_fallback So no_backend text = int (length text) * 10"
proof -
  have "measure_with_fallback So no_backend text =
        0 + sum_list (map (\<lambda>(t, e). text_length no_backend t (if e then EmojiFont else TextFont))
              (split_runs_by_emoji So text))"
    unfolding measure_with_fallback_def by (rule foldl_run_widths)
  also have "\<dots> = sum_list (map (\<lambda>(t, e). int (length t) * 10) (split_runs_by_emoji So text))"
    by (simp add: text_length_def no_backend_def)
  also have "\<dots> = int (length (concat (map fst (split_runs_by_emoji So text)))) * 10"
    by (rule sum_run_lengths)
  also have "\<dots> = int (length text) * 10"
    by (simp add: split_runs_by_emoji_def split_loop_concat)
  finally show ?thesis .
qed

lemma limit_loop_fits:
  "limit_loop M sw mx acc rest = acc \<or> M (limit_loop M sw mx acc rest) + sw \<le> mx"
proof (induction rest arbitrary: acc)
  case Nil
  show ?case by simp
next
  case (Cons ch rest)
  show ?case
  proof (cases "M (acc @ [ch]) + sw > mx")
    case True
    then show ?thesis by simp
  next
    case False
    with Cons.IH[of "acc @ [ch]"] show ?thesis by auto
  qed
qed

lemma ascii_dots: "ascii ''...'' = [46, 46, 46]"
  by (simp add: ascii_def)

text \<open>
  What the truncation does guarantee.  For a width measure that is additive over
  concatenation and never negative it is idempotent, and its output fits whenever the
  suffix alone fits; a text that fits is returned unchanged for every measure.
\<close>

lemma limit_text_by_px_additive:
  assumes add: "\<forall>a b. measure_with_fallback So pic (a @ b) =
                  measure_with_fallback So pic a + measure_with_fallback So pic b"
    and nn: "\<forall>a. 0 \<le> measure_with_fallback So pic a"
  shows "limit_text_by_px So pic (limit_text_by_px So pic text max_px) max_px =
           limit_text_by_px So pic text max_px"
    and "measure_with_fallback So pic (ascii ''...'') \<le> max_px \<longrightarrow>
           measure_with_fallback So pic (limit_text_by_px So pic text max_px) \<le> max_px"
    and "measure_with_fallback So pic text \<le> max_px \<longrightarrow>
           limit_text_by_px So pic text max_px = text"
proof -
  let ?M = "measure_with_fallback So pic"
  let ?L = "\<lambda>t. limit_text_by_px So pic t max_px"
  let ?sw = "?M (ascii ''...'')"
  let ?acc = "limit_loop ?M ?sw max_px [] text"
  have fits_same: "?L t = t" if "?M t \<le> max_px" for t
    using that by (simp add: limit_text_by_px_def Let_def)
  show c: "?M text \<le> max_px \<longrightarrow> ?L text = text"
    using fits_same by simp
  have trunc: "?L text = ?acc @ ascii ''...''" if "\<not> ?M text \<le> max_px" "text \<noteq> []"
    using that by (simp add: limit_text_by_px_def Let_def)
  have M0: "?M [] = 0"
    using add[rule_format, of "[]" "[]"] by simp
  have width: "?M (?L text) \<le> max_px" if sfit: "?sw \<le> max_px"
  proof (cases "text = [] \<or> ?M text \<le> max_px")
    case True
    then show ?thesis
    proof
      assume "text = []"
      then have "?L text = []" by (simp add: limit_text_by_px_def Let_def)
      moreover have "0 \<le> max_px" using sfit nn[rule_format, of "ascii ''...''"] by simp
      ultimately show ?thesis using M0 by simp
    next
      assume "?M text \<le> max_px"
      then show ?thesis using fits_same by simp
    qed
  next
    case False
    then have L: "?L text = ?acc @ ascii ''...''" using trunc by simp
    from limit_loop_fits[of "?M" "?sw" max_px "[]" "text"]
    have "?M ?acc + ?sw \<le> max_px"
    proof
      assume "?acc = []"
      then show ?thesis using M0 sfit by simp
    qed simp
    then show ?thesis using L add[rule_format, of "?acc" "ascii ''...''"] by simp
  qed
  then show "?sw \<le> max_px \<longrightarrow> ?M (?L text) \<le> max_px" by simp
  show "?L (?L text) = ?L text"
  proof (cases "text = [] \<or> ?M text \<le> max_px")
    case True
    then show ?thesis
    proof
      assume "text = []"
      then show ?thesis by (simp add: limit_text_by_px_def Let_def)
    next
      assume "?M text \<le> max_px"
      then show ?thesis using fits_same by simp
    qed
  next
    case False
    then have L: "?L text = ?acc @ ascii ''...''" using trunc by simp
    show ?thesis
    proof (cases "?M (?L text) \<le> max_px")
      case True
      then show ?thesis using fits_same by simp
    next
      case wide: False
      have acc_empty: "?acc = []"
      proof (rule ccontr)
        assume ne: "?acc \<noteq> []"
        with limit_loop_fits[of "?M" "?sw" max_px "[]" "text"]
        have "?M ?acc + ?sw \<le> max_px" by auto
        with wide L add[rule_format, of "?acc" "ascii ''...''"] show False by simp
      qed
      with L have Ld: "?L text = ascii ''...''" by simp
      with wide have sw: "\<not> ?sw \<le> max_px" by simp
      have dot: "0 \<le> ?M [46]" using nn by simp
      have "?L (ascii ''...'') = limit_loop ?M ?sw max_px [] (ascii ''...'') @ ascii ''...''"
        using sw by (simp add: limit_text_by_px_def Let_def ascii_dots)
      also have "limit_loop ?M ?sw max_px [] (ascii ''...'') = []"
        using sw dot by (simp add: ascii_dots)
      finally show ?thesis using Ld by simp
    qed
  qed
qed

lemma limit_text_by_px_fits:
  "measure_with_fallback So pic t \<le> max_px \<Longrightarrow> limit_text_by_px So pic t max_px = t"
  by (simp add: limit_text_by_px_def Let_def)

lemma measure_frac_backend:
  "measure_with_fallback (\<lambda>_. False) frac_backend [46, 46, 46] = 31"
  "measure_with_fallback (\<lambda>_. False) frac_backend [97] = 10"
  "measure_with_fallback (\<lambda>_. False) frac_backend [97, 98] = 21"
  "measure_with_fallback (\<lambda>_. False) frac_backend [97, 98, 99] = 31"
  "measure_with_fallback (\<lambda>_. False) frac_backend [97, 98, 99, 100, 101, 102] = 63"
  "measure_with_fallback (\<lambda>_. False) frac_backend [97, 98, 46, 46, 46] = 53"
  by (simp_all add: measure_with_fallback_def split_runs_by_emoji_def is_emoji_char_def
      text_length_def frac_backend_def)

lemma ascii_examples:
  "ascii ''abcd'' = [97, 98, 99, 100]"
  "ascii ''abcdef'' = [97, 98, 99, 100, 101, 102]"
  "ascii ''ab...'' = [97, 98, 46, 46, 46]"
  by (simp_all add: ascii_def)

text \<open>
  C4: the code breaks the width bound of the claim.  With the ten-pixels-per-character
  fallback, the text \<open>abcd\<close> and \<open>max_px = 20\<close> give the bare suffix \<open>...\<close>,
  which is 30 px wide.  With glyphs of 10.6 px, whose measured widths are truncated run
  by run, the suffix measures 31 px and fits in \<open>max_px = 52\<close>, yet \<open>abcdef\<close> is cut
  to \<open>ab...\<close>, which measures 53 px.
\<close>

theorem limit_text_by_px_overflow:
  "limit_text_by_px (\<lambda>_. False) no_backend (ascii ''abcd'') 20 = ascii ''...'' \<and>
   measure_with_fallback (\<lambda>_. False) no_backend (ascii ''...'') = 30 \<and>
   limit_text_by_px (\<lambda>_. False) frac_backend (ascii ''abcdef'') 52 = ascii ''ab...'' \<and>
   measure_with_fallback (\<lambda>_. False) frac_backend (ascii ''...'') = 31 \<and>
   measure_with_fallback (\<lambda>_. False) frac_backend (ascii ''ab...'') = 53"
proof -
  have small: "limit_text_by_px (\<lambda>_. False) no_backend (ascii ''abcd'') 20 = ascii ''...''"
    unfolding limit_text_by_px_def Let_def ascii_examples ascii_dots
    by (simp add: measure_no_backend)
  have loop: "limit_loop (measure_with_fallback (\<lambda>_. False) frac_backend) 31 52 []
                [97, 98, 99, 100, 101, 102] = [97, 98]"
    by (simp add: measure_frac_backend)
  have frac: "limit_text_by_px (\<lambda>_. False) frac_backend (ascii ''abcdef'') 52 = ascii ''ab...''"
    unfolding limit_text_by_px_def Let_def ascii_examples ascii_dots
    by (simp add: measure_frac_backend loop)
  show ?thesis
    using small frac
    by (simp add: ascii_examples ascii_dots measure_no_backend measure_frac_backend)
qed

section \<open>Properties of the formatters\<close>

subsection \<open>Counts\<close>

lemma digits10_hd: "digits10 n \<noteq> [] \<and> 48 \<le> hd (digits10 n)"
proof (induction n rule: digits10.induct)
  case (1 n)
  show ?case
  proof (cases "n < 10")
    case True
    then show ?thesis by (subst digits10.simps, subst (2) digits10.simps) simp
  next
    case False
    with 1 show ?thesis by (subst digits10.simps, subst (2) digits10.simps) simp
  qed
qed

lemma str_int_not_dash: "str_int n \<noteq> [45]"
proof (cases "n < 0")
  case True
  then show ?thesis using digits10_hd[of "nat (- n)"] by (simp add: str_int_def)
next
  case False
  then show ?thesis using digits10_hd[of "nat n"] by (auto simp: str_int_def)
qed

text \<open>
  C8: \<^verbatim>\<open>format_count(None)\<close> is the dash and \<^verbatim>\<open>format_count(0)\<close> is \<open>0\<close>; the absent
  count is not rendered as \<open>0\<close>, and no present count, zero included, is rendered as
  the dash.
\<close>

theorem format_count_zero_vs_absent:
  "format_count None = ascii ''-'' \<and> format_count (Some 0) = ascii ''0'' \<and>
   format_count None \<noteq> ascii ''0'' \<and> format_count (Some n) \<noteq> ascii ''-''"
  using str_int_not_dash[of n]
  by (simp add: format_count_def str_int_def ascii_def)

subsection \<open>Month arguments\<close>

lemma decimal_plain:
  "is_decimal nd c \<Longrightarrow> \<not> int_space c \<and> c \<noteq> 45 \<and> c \<noteq> 43 \<and> c \<noteq> 95"
  by (auto simp: is_decimal_def digit_val_def int_space_def split: if_splits)

lemma py_int_two_digits:
  assumes "is_decimal nd a" and "is_decimal nd b"
  shows "py_int nd [a, b] = Some (two_digit_value nd [a, b])"
proof -
  from assms obtain va vb where v: "digit_val nd a = Some va" "digit_val nd b = Some vb"
    by (auto simp: is_decimal_def)
  from decimal_plain[OF assms(1)] decimal_plain[OF assms(2)] v show ?thesis
    unfolding py_int_def Let_def
    by (simp add: digits_val_def two_digit_value_def)
qed

lemma length6: "length t = 6 \<Longrightarrow> \<exists>a b c d e f. t = [a, b, c, d, e, f]"
  by (auto simp: numeral_eq_Suc length_Suc_conv)

lemma length7: "length t = 7 \<Longrightarrow> \<exists>a b c d e f g. t = [a, b, c, d, e, f, g]"
  by (auto simp: numeral_eq_Suc length_Suc_conv)

lemma month_groups_six:
  assumes "six_digits nd t"
  shows "month_groups nd t = Some (take 4 t, month_field t) \<and>
         py_int nd (month_field t) = Some (two_digit_value nd (month_field t))"
proof -
  from assms obtain a b c d e f where t: "t = [a, b, c, d, e, f]"
    using length6[of t] by (auto simp: six_digits_def)
  with assms have "is_decimal nd e" "is_decimal nd f" by (simp_all add: six_digits_def)
  from py_int_two_digits[OF this] t assms show ?thesis
    by (simp add: month_groups_def month_re_1_def month_field_def six_digits_def)
qed

lemma month_groups_dash:
  assumes "year_dash_month nd t"
  shows "month_groups nd t = Some (take 4 t, month_field t) \<and>
         py_int nd (month_field t) = Some (two_digit_value nd (month_field t))"
proof -
  from assms obtain a b c d e f g where t: "t = [a, b, c, d, e, f, g]"
    using length7[of t] by (auto simp: year_dash_month_def)
  with assms have "is_decimal nd f" "is_decimal nd g" by (simp_all add: year_dash_month_def)
  from py_int_two_digits[OF this] t assms show ?thesis
    by (simp add: month_groups_def month_re_1_def month_re_2_def month_field_def
        year_dash_month_def)
qed

lemma month_groups_none:
  "\<not> six_digits nd t \<Longrightarrow> \<not> year_dash_month nd t \<Longrightarrow> month_groups nd t = None"
  by (simp add: month_groups_def month_re_1_def month_re_2_def six_digits_def year_dash_month_def)

lemma normalize_month_arg_char:
  "normalize_month_arg nd raw =
     (if (six_digits nd (strip raw) \<or> year_dash_month nd (strip raw)) \<and>
         1 \<le> two_digit_value nd (month_field (strip raw)) \<and>
         two_digit_value nd (month_field (strip raw)) \<le> 12
      then Some (take 4 (strip raw) @ month_field (strip raw)) else None)"
proof (cases "six_digits nd (strip raw) \<or> year_dash_month nd (strip raw)")
  case True
  then have g: "month_groups nd (strip raw) = Some (take 4 (strip raw), month_field (strip raw)) \<and>
         py_int nd (month_field (strip raw)) =
           Some (two_digit_value nd (month_field (strip raw)))"
    using month_groups_six month_groups_dash by blast
  have "raw \<noteq> []" using True by (auto simp: strip_def six_digits_def year_dash_month_def)
  with g True show ?thesis by (simp add: normalize_month_arg_def)
next
  case False
  then show ?thesis using month_groups_none[of nd "strip raw"]
    by (simp add: normalize_month_arg_def)
qed

lemma strip_202509: "strip (ascii ''202509'') = [50,48,50,53,48,57]"
  by (simp add: strip_def ascii_def is_space_def)
lemma strip_2025_09: "strip (ascii ''2025-09'') = [50,48,50,53,45,48,57]"
  by (simp add: strip_def ascii_def is_space_def)
lemma strip_202513: "strip (ascii ''202513'') = [50,48,50,53,49,51]"
  by (simp add: strip_def ascii_def is_space_def)
lemma strip_abcdef: "strip (ascii ''abcdef'') = [97,98,99,100,101,102]"
  by (simp add: strip_def ascii_def is_space_def)

text \<open>
  C6: \<open>202509\<close> and \<open>2025-09\<close> both give \<open>202509\<close>; \<open>202513\<close> and \<open>abcdef\<close>
  give \<open>None\<close>; the result is not \<open>None\<close> exactly when the stripped input is six
  digits, or four digits, a hyphen and two digits, with a month field between 1 and
  12, and it is then the year digits followed by the month digits.  The two copies of
  the function agree.
\<close>

theorem normalize_month_arg_spec:
  "normalize_month_arg nd (ascii ''202509'') = Some (ascii ''202509'') \<and>
   normalize_month_arg nd (ascii ''2025-09'') = Some (ascii ''202509'') \<and>
   normalize_month_arg nd (ascii ''202513'') = None \<and>
   normalize_month_arg nd (ascii ''abcdef'') = None \<and>
   (normalize_month_arg nd raw \<noteq> None \<longleftrightarrow>
      (six_digits nd (strip raw) \<or> year_dash_month nd (strip raw)) \<and>
      1 \<le> two_digit_value nd (month_field (strip raw)) \<and>
      two_digit_value nd (month_field (strip raw)) \<le> 12) \<and>
   (normalize_month_arg nd raw \<noteq> None \<longrightarrow>
      normalize_month_arg nd raw = Some (take 4 (strip raw) @ month_field (strip raw))) \<and>
   normalize_month_arg_query nd raw = normalize_month_arg nd raw"
proof -
  have q: "normalize_month_arg_query nd raw = normalize_month_arg nd raw"
    by (simp add: normalize_month_arg_query_def normalize_month_arg_def
        split: option.splits prod.splits)
  have a: "normalize_month_arg nd (ascii ''202509'') = Some (ascii ''202509'')"
    unfolding normalize_month_arg_char strip_202509
    by (simp add: six_digits_def is_decimal_def digit_val_def month_field_def
        two_digit_value_def ascii_def)
  have b: "normalize_month_arg nd (ascii ''2025-09'') = Some (ascii ''202509'')"
    unfolding normalize_month_arg_char strip_2025_09
    by (simp add: six_digits_def year_dash_month_def is_decimal_def digit_val_def
        month_field_def two_digit_value_def ascii_def)
  have c: "normalize_month_arg nd (ascii ''202513'') = None"
    unfolding normalize_month_arg_char strip_202513
    by (simp add: six_digits_def year_dash_month_def is_decimal_def digit_val_def
        month_field_def two_digit_value_def)
  have d: "normalize_month_arg nd (ascii ''abcdef'') = None"
    unfolding normalize_month_arg_char strip_abcdef
    by (simp add: six_digits_def year_dash_month_def is_decimal_def digit_val_def)
  show ?thesis
    using q a b c d by (simp add: normalize_month_arg_char[of nd raw])
qed

theorem normalize_month_arg_spec_witness:
  "normalize_month_arg (\<lambda>_. None) (ascii '' 2025-09 '') \<noteq> None \<and>
   normalize_month_arg (\<lambda>_. None) (ascii '' 2025-09 '') = Some (ascii ''202509'')"
proof -
  have s: "strip (ascii '' 2025-09 '') = [50, 48, 50, 53, 45, 48, 57]"
    by (simp add: strip_def ascii_def is_space_def)
  have y: "year_dash_month (\<lambda>_. None) [50, 48, 50, 53, 45, 48, 57]"
    by (simp add: year_dash_month_def is_decimal_def digit_val_def)
  have m: "two_digit_value (\<lambda>_. None) (month_field [50, 48, 50, 53, 45, 48, 57]) = 9"
    by (simp add: two_digit_value_def month_field_def digit_val_def)
  from normalize_month_arg_spec[of "\<lambda>_. None" "ascii '' 2025-09 ''"] s y m show ?thesis
    by (simp add: month_field_def ascii_def)
qed

subsection \<open>Durations\<close>

lemma split_hms: "split_on 58 (ascii ''01:30:00'') = [[48, 49], [51, 48], [48, 48]]"
  by (simp add: ascii_def)

lemma py_int_01: "py_int nd [48, 49] = Some 1"
  unfolding py_int_def Let_def by (simp add: int_space_def digits_val_def digit_val_def)

lemma py_int_30: "py_int nd [51, 48] = Some 30"
  unfolding py_int_def Let_def by (simp add: int_space_def digits_val_def digit_val_def)

lemma py_int_00: "py_int nd [48, 48] = Some 0"
  unfolding py_int_def Let_def by (simp add: int_space_def digits_val_def digit_val_def)

lemma div_30_60: "int_true_div 30 60 = Some (Fin (1 / 2))"
  unfolding int_true_div_def round_double_def Let_def
  by (simp add: ilog2_def pow2_def round_half_even_def)

lemma div_0_3600: "int_true_div 0 3600 = Some (Fin 0)"
  unfolding int_true_div_def round_double_def Let_def by simp

lemma float_1: "int_to_float 1 = Some (Fin 1)"
  unfolding int_to_float_def round_double_def Let_def
  by (simp add: ilog2_def pow2_def round_half_even_def)

lemma round_3half: "round_double (3 / 2) = Fin (3 / 2)"
  unfolding round_double_def Let_def
  by (simp add: ilog2_def pow2_def round_half_even_def)

lemma total_hours_1_30_0: "total_hours 1 30 0 = Some (Fin (3 / 2))"
  by (simp add: total_hours_def div_30_60 div_0_3600 float_1 round_3half)

lemma fmt1_3half: "fmt_fixed (Suc 0) (Fin (3 / 2)) = [49, 46, 53]"
  unfolding fmt_fixed_def Let_def by (simp add: round_half_even_def zero_pad_def)

lemma fmt2_3half: "fmt_fixed 2 (Fin (3 / 2)) = [49, 46, 53, 48]"
  unfolding fmt_fixed_def Let_def by (simp add: round_half_even_def zero_pad_def)

lemma format_hms_1: "format_hms nd (Suc 0) (ascii ''01:30:00'') = Some (ascii ''1.5'' @ hours_suffix)"
  by (simp add: format_hms_def split_hms py_int_01 py_int_30 py_int_00 total_hours_1_30_0
      fmt1_3half) (simp add: ascii_def)

lemma format_hms_2: "format_hms nd 2 (ascii ''01:30:00'') = Some (ascii ''1.50'' @ hours_suffix)"
  by (simp add: format_hms_def split_hms py_int_01 py_int_30 py_int_00 total_hours_1_30_0
      fmt2_3half) (simp add: ascii_def)

lemma format_hms_malformed: "\<not> three_int_fields nd hms \<Longrightarrow> format_hms nd d hms = None"
  by (auto simp: three_int_fields_def format_hms_def split: list.splits option.splits)

text \<open>
  C7 as stated fails for \<^verbatim>\<open>_format_duration_hours\<close>, which formats with two decimals.
\<close>

theorem format_duration_hours_two_decimals:
  "format_duration_hours (\<lambda>_. None) (ascii ''01:30:00'') \<noteq> ascii ''1.5'' @ hours_suffix"
  by (simp add: format_duration_hours_def format_hms_2) (simp add: ascii_def)

text \<open>
  C7, amended: \<^verbatim>\<open>format_duration\<close> maps \<open>01:30:00\<close> to \<open>1.5\<close> followed by the hours
  suffix and returns unchanged every input that does not split into exactly three
  colon-separated integer fields; \<^verbatim>\<open>_format_duration_hours\<close> maps \<open>01:30:00\<close> to
  \<open>1.50\<close> followed by the suffix and returns unchanged every such input that is not
  empty.
\<close>

theorem format_duration_spec:
  "format_duration nd (ascii ''01:30:00'') = ascii ''1.5'' @ hours_suffix \<and>
   format_duration_hours nd (ascii ''01:30:00'') = ascii ''1.50'' @ hours_suffix \<and>
   (\<not> three_int_fields nd hms \<longrightarrow> format_duration nd hms = hms) \<and>
   (\<not> three_int_fields nd hms \<longrightarrow> hms \<noteq> [] \<longrightarrow> format_duration_hours nd hms = hms)"
  by (simp add: format_duration_def format_duration_hours_def format_hms_1 format_hms_2
      format_hms_malformed)

theorem format_duration_spec_witness:
  "\<not> three_int_fields (\<lambda>_. None) (ascii ''bad'') \<and> ascii ''bad'' \<noteq> [] \<and>
   format_duration (\<lambda>_. None) (ascii ''bad'') = ascii ''bad'' \<and>
   format_duration_hours (\<lambda>_. None) (ascii ''bad'') = ascii ''bad''"
proof -
  have n: "\<not> three_int_fields (\<lambda>_. None) (ascii ''bad'')"
    by (simp add: three_int_fields_def ascii_def)
  have e: "ascii ''bad'' \<noteq> []" by (simp add: ascii_def)
  from format_duration_spec[of "\<lambda>_. None" "ascii ''bad''"] n e show ?thesis by simp
qed

section \<open>Properties of the revenue totals\<close>






end
